theory Spec2Isabelle
  imports
    Main
    "HOL-Library.Sublist"
    "HOL-Library.Multiset"
    "HOL-Library.Char_ord"
    "HOL-Library.List_Lexorder"
    "HOL-Library.Product_Lexorder"
begin

section \<open>Data model\<close>

text \<open>
  Modelled from the spec: the class \<open>Item\<close> (module \<open>item\<close>) is imported by both source
  files but is not among them. The spec describes it as an immutable value with the four
  fields below, two items being equal iff all four fields are equal. HOL equality on the
  record is exactly that value equality, so Python's \<open>item in items\<close> and
  \<open>items.remove(item)\<close>, which compare with \<open>==\<close>, become \<open>\<in> set\<close> and \<open>remove1\<close>.

  Python strings are \<open>string\<close>; \<open>a in b\<close> on strings is the contiguous-substring test
  \<^const>\<open>sublist\<close>, and \<open>\<le>\<close> on strings is the lexicographic order on character codes.
\<close>

record item =
  name :: string
  price :: int
  hashtags :: "string list"
  description :: string

text \<open>The three exception classes of module \<open>errors\<close> that the two files raise.\<close>

datatype error = ItemNotExistError | TooManyMatchesError | ItemAlreadyExistsError

text \<open>\<open>class ShoppingCart\<close>: the single attribute \<open>items\<close>.\<close>

record shopping_cart =
  items :: "item list"

text \<open>\<open>class Store\<close>: the attributes \<open>_items\<close> and \<open>_shopping_cart\<close>.\<close>

record store =
  store_items :: "item list"
  store_shopping_cart :: shopping_cart

text \<open>
  A method that mutates \<open>self\<close> and may raise is a function from the object to the pair of
  its outcome (\<open>Inl\<close> the exception raised, \<open>Inr\<close> the value returned) and the object as
  the call leaves it. A method with no \<open>raise\<close> returns its value and the object.
\<close>

type_synonym 'a outcome = "error + 'a"

section \<open>shopping\_cart.py\<close>

definition ShoppingCart_init :: shopping_cart where
  "ShoppingCart_init = \<lparr>items = []\<rparr>"

definition ShoppingCart_len :: "shopping_cart \<Rightarrow> nat" where
  "ShoppingCart_len self = length (items self)"

text \<open>
  \<open>ShoppingCart\<close> defines \<open>__iter__\<close> and no \<open>__contains__\<close>, so \<open>item in cart\<close> iterates
  over \<open>cart.items\<close> and compares with \<open>==\<close>.
\<close>

definition ShoppingCart_contains :: "shopping_cart \<Rightarrow> item \<Rightarrow> bool" where
  "ShoppingCart_contains self item = (item \<in> set (items self))"

definition ShoppingCart_add_item ::
  "shopping_cart \<Rightarrow> item \<Rightarrow> unit outcome \<times> shopping_cart" where
  "ShoppingCart_add_item self item =
     (if item \<in> set (items self) then (Inl ItemAlreadyExistsError, self)
      else (Inr (), self\<lparr>items := items self @ [item]\<rparr>))"

text \<open>
  The \<open>for\<close> loop of \<open>remove_item\<close>: the first item, in list order, whose name contains
  \<open>item_name\<close>; \<open>None\<close> when the loop runs to its end.
\<close>

fun remove_item_scan :: "item list \<Rightarrow> string \<Rightarrow> item option" where
  "remove_item_scan [] item_name = None"
| "remove_item_scan (item # rest) item_name =
     (if sublist item_name (name item) then Some item
      else remove_item_scan rest item_name)"

definition ShoppingCart_remove_item ::
  "shopping_cart \<Rightarrow> string \<Rightarrow> unit outcome \<times> shopping_cart" where
  "ShoppingCart_remove_item self item_name =
     (case remove_item_scan (items self) item_name of
        Some item \<Rightarrow> (Inr (), self\<lparr>items := remove1 item (items self)\<rparr>)
      | None \<Rightarrow> (Inl ItemNotExistError, self))"

definition ShoppingCart_get_subtotal :: "shopping_cart \<Rightarrow> int" where
  "ShoppingCart_get_subtotal self =
     (let sub_total = map price (items self) in sum_list sub_total)"

section \<open>store.py\<close>

text \<open>
  The constructor reads a YAML file and converts its records; the model starts from the
  list \<open>_convert_to_item_objects\<close> returns.
\<close>

definition Store_init :: "item list \<Rightarrow> store" where
  "Store_init loaded = \<lparr>store_items = loaded, store_shopping_cart = ShoppingCart_init\<rparr>"

definition get_items :: "store \<Rightarrow> item list \<times> store" where
  "get_items self = (store_items self, self)"

subsection \<open>Ranking\<close>

text \<open>
  \<open>collections.Counter\<close> over a list: a dictionary built by one increment per element;
  reading a missing key gives 0.
\<close>

definition counter_get :: "('a \<rightharpoonup> int) \<Rightarrow> 'a \<Rightarrow> int" where
  "counter_get c k = (case c k of None \<Rightarrow> 0 | Some n \<Rightarrow> n)"

definition counter_bump :: "('a \<rightharpoonup> int) \<Rightarrow> 'a \<Rightarrow> ('a \<rightharpoonup> int)" where
  "counter_bump c k = c(k \<mapsto> counter_get c k + 1)"

definition Counter :: "'a list \<Rightarrow> ('a \<rightharpoonup> int)" where
  "Counter xs = foldl counter_bump Map.empty xs"

text \<open>
  The built-in \<open>sorted(xs, key=..., reverse=...)\<close>: a stable sort by key. With
  \<open>reverse=True\<close> CPython reverses the list, sorts it stably and reverses the result, so
  that equal keys keep their original order.
\<close>

definition sorted_py :: "('a \<Rightarrow> 'k::linorder) \<Rightarrow> bool \<Rightarrow> 'a list \<Rightarrow> 'a list" where
  "sorted_py key reverse xs =
     (if reverse then rev (sort_key key (rev xs)) else sort_key key xs)"

definition list_of_hashtags :: "store \<Rightarrow> string list" where
  "list_of_hashtags self = concat (map hashtags (items (store_shopping_cart self)))"

definition rate_numbers :: "store \<Rightarrow> item \<Rightarrow> int list" where
  "rate_numbers self item =
     (let c = Counter (list_of_hashtags self) in
      map (counter_get c)
        (filter (\<lambda>tag. tag \<in> set (list_of_hashtags self)) (hashtags item)))"

definition compute_rate :: "store \<Rightarrow> item list \<Rightarrow> (int \<times> item) list" where
  "compute_rate self items_list =
     map (\<lambda>item. (sum_list (rate_numbers self item), item)) items_list"

definition sort_by_rate :: "store \<Rightarrow> item list \<Rightarrow> item list" where
  "sort_by_rate self items_list =
     (let by_name = sorted_py name False items_list;
          by_rate = sorted_py fst True (compute_rate self by_name)
      in map snd by_rate)"

subsection \<open>Searching\<close>

text \<open>The two \<open>for\<close> loops that collect the candidates, with the list they append to.\<close>

fun search_by_name_loop :: "store \<Rightarrow> string \<Rightarrow> item list \<Rightarrow> item list \<Rightarrow> item list" where
  "search_by_name_loop self item_name [] my_items = my_items"
| "search_by_name_loop self item_name (item # rest) my_items =
     (if sublist item_name (name item)
         \<and> \<not> ShoppingCart_contains (store_shopping_cart self) item
      then search_by_name_loop self item_name rest (my_items @ [item])
      else search_by_name_loop self item_name rest my_items)"

definition search_by_name :: "store \<Rightarrow> string \<Rightarrow> item list \<times> store" where
  "search_by_name self item_name =
     (sort_by_rate self (search_by_name_loop self item_name (store_items self) []), self)"

fun search_by_hashtag_loop :: "store \<Rightarrow> string \<Rightarrow> item list \<Rightarrow> item list \<Rightarrow> item list" where
  "search_by_hashtag_loop self hashtag [] my_hashtags = my_hashtags"
| "search_by_hashtag_loop self hashtag (item # rest) my_hashtags =
     (if hashtag \<in> set (hashtags item)
         \<and> \<not> ShoppingCart_contains (store_shopping_cart self) item
      then search_by_hashtag_loop self hashtag rest (my_hashtags @ [item])
      else search_by_hashtag_loop self hashtag rest my_hashtags)"

definition search_by_hashtag :: "store \<Rightarrow> string \<Rightarrow> item list \<times> store" where
  "search_by_hashtag self hashtag =
     (sort_by_rate self (search_by_hashtag_loop self hashtag (store_items self) []), self)"

subsection \<open>Adding, removing, checkout\<close>

definition add_item :: "store \<Rightarrow> string \<Rightarrow> unit outcome \<times> store" where
  "add_item self item_name =
     (let my_items = filter (\<lambda>item. sublist item_name (name item)) (store_items self) in
      if length my_items = 0 then (Inl ItemNotExistError, self)
      else if length my_items > 1 then (Inl TooManyMatchesError, self)
      else (case ShoppingCart_add_item (store_shopping_cart self) (my_items ! 0) of
              (r, cart) \<Rightarrow> (r, self\<lparr>store_shopping_cart := cart\<rparr>)))"

definition remove_item :: "store \<Rightarrow> string \<Rightarrow> unit outcome \<times> store" where
  "remove_item self item_name =
     (let my_items =
            filter (\<lambda>item. sublist item_name (name item)) (items (store_shopping_cart self)) in
      if length my_items > 1 then (Inl TooManyMatchesError, self)
      else (case ShoppingCart_remove_item (store_shopping_cart self) item_name of
              (r, cart) \<Rightarrow> (r, self\<lparr>store_shopping_cart := cart\<rparr>)))"

definition checkout :: "store \<Rightarrow> int \<times> store" where
  "checkout self = (ShoppingCart_get_subtotal (store_shopping_cart self), self)"

section \<open>Specification-level notions\<close>

text \<open>
  The rate of a candidate as the specification words it: the sum, over every entry of the
  candidate's own hashtag list, of the number of occurrences of that hashtag in the
  hashtag lists of the items in the cart.
\<close>

definition rate_spec :: "store \<Rightarrow> item \<Rightarrow> int" where
  "rate_spec self item =
     (\<Sum>tag\<leftarrow>hashtags item.
        int (count_list (concat (map hashtags (items (store_shopping_cart self)))) tag))"

text \<open>
  The reference ordering of the specification: one stable sort by the composite key
  (rate descending, name ascending). Pairs are compared lexicographically, as Python
  compares tuples.
\<close>

definition sort_by_rate_ref :: "store \<Rightarrow> item list \<Rightarrow> item list" where
  "sort_by_rate_ref self items_list =
     sorted_py (\<lambda>item. (- rate_spec self item, name item)) False items_list"

text \<open>
  The invariant of the data model: the cart holds no item twice, and every item of the
  cart is an item of the catalog.
\<close>

definition cart_invariant :: "store \<Rightarrow> bool" where
  "cart_invariant self =
     (distinct (items (store_shopping_cart self))
      \<and> set (items (store_shopping_cart self)) \<subseteq> set (store_items self))"

text \<open>
  The states of a store: what the constructor builds from the loaded item list, and what
  any of the six public operations leaves behind.
\<close>

inductive reachable :: "item list \<Rightarrow> store \<Rightarrow> bool" where
  reachable_init: "reachable loaded (Store_init loaded)"
| reachable_add_item: "reachable loaded s \<Longrightarrow> reachable loaded (snd (add_item s f))"
| reachable_remove_item: "reachable loaded s \<Longrightarrow> reachable loaded (snd (remove_item s f))"
| reachable_search_by_name:
    "reachable loaded s \<Longrightarrow> reachable loaded (snd (search_by_name s f))"
| reachable_search_by_hashtag:
    "reachable loaded s \<Longrightarrow> reachable loaded (snd (search_by_hashtag s f))"
| reachable_get_items: "reachable loaded s \<Longrightarrow> reachable loaded (snd (get_items s))"
| reachable_checkout: "reachable loaded s \<Longrightarrow> reachable loaded (snd (checkout s))"

subsection \<open>Example data\<close>

text \<open>
  The ranking example of the specification: three candidates with hashtags \<open>[x, y]\<close>,
  \<open>[x]\<close> and \<open>[z]\<close>, and a cart holding one item with hashtags \<open>[x, x, y]\<close>.
\<close>

definition item_A :: item where
  "item_A = \<lparr>name = ''Apple'', price = 3, hashtags = [''x'', ''y''], description = ''fruit''\<rparr>"

definition item_B :: item where
  "item_B = \<lparr>name = ''Bread'', price = 5, hashtags = [''x''], description = ''loaf''\<rparr>"

definition item_C :: item where
  "item_C = \<lparr>name = ''Cheese'', price = 7, hashtags = [''z''], description = ''block''\<rparr>"

definition item_D :: item where
  "item_D = \<lparr>name = ''Dates'', price = 2, hashtags = [''x'', ''x'', ''y''], description = ''box''\<rparr>"

definition example_store :: store where
  "example_store =
     \<lparr>store_items = [item_C, item_B, item_A, item_D],
      store_shopping_cart = \<lparr>items = [item_D]\<rparr>\<rparr>"

definition example_full_cart :: store where
  "example_full_cart =
     \<lparr>store_items = [item_C, item_B, item_A, item_D],
      store_shopping_cart = \<lparr>items = [item_D, item_A, item_B]\<rparr>\<rparr>"

definition example_foreign_cart :: store where
  "example_foreign_cart =
     \<lparr>store_items = [item_A, item_B],
      store_shopping_cart = \<lparr>items = [item_A\<lparr>name := ''Apple pie''\<rparr>]\<rparr>\<rparr>"

lemmas example_defs =
  example_store_def example_full_cart_def item_A_def item_B_def item_C_def item_D_def

section \<open>Stable sorting\<close>

text \<open>
  Facts about the stable sort \<^const>\<open>sort_key\<close> that the ranking rests on: sorting by
  \<open>f\<close> a list already sorted by \<open>g\<close> is sorting by the pair \<open>(f, g)\<close>; sorting in
  reverse is sorting by the negated key; sorting commutes with \<open>map\<close>.
\<close>

lemma insort_key_pair:
  assumes "\<forall>y\<in>set ys. g z \<le> g y"
  shows "insort_key (\<lambda>x. (f x, g x)) z ys = insort_key f z ys"
  using assms by (induction ys) (auto simp: less_eq_prod_def)

lemma sort_key_pair_of_sorted:
  "sorted (map g zs) \<Longrightarrow> sort_key (\<lambda>x. (f x, g x)) zs = sort_key f zs"
proof (induction zs)
  case Nil
  then show ?case by simp
next
  case (Cons z zs)
  then have ih: "sort_key (\<lambda>x. (f x, g x)) zs = sort_key f zs" by simp
  from Cons.prems have "\<forall>y\<in>set (sort_key f zs). g z \<le> g y" by simp
  then have "insort_key (\<lambda>x. (f x, g x)) z (sort_key f zs) = insort_key f z (sort_key f zs)"
    by (rule insort_key_pair)
  then show ?case
    by (simp add: ih)
qed

lemma insort_key_map:
  "insort_key f (h x) (map h ys) = map h (insort_key (\<lambda>x. f (h x)) x ys)"
  by (induction ys) auto

lemma sort_key_map:
  "sort_key f (map h xs) = map h (sort_key (\<lambda>x. f (h x)) xs)"
  by (induction xs) (auto simp: insort_key_map)

lemma sort_key_pair_absorb:
  "sort_key (\<lambda>x. (f x, g x)) (sort_key g xs) = sort_key (\<lambda>x. (f x, g x)) xs"
proof -
  let ?h = "\<lambda>x. (f x, g x)"
  let ?ys = "sort_key ?h (sort_key g xs)"
  have m: "mset ?ys = mset xs" by simp
  have st: "filter (\<lambda>x. ?h k = ?h x) ?ys = filter (\<lambda>x. ?h k = ?h x) xs" for k
  proof -
    have e: "(\<lambda>x. ?h k = ?h x) = (\<lambda>x. ?h x = ?h k)" by (rule ext) (rule eq_commute)
    have "filter (\<lambda>x. ?h x = ?h k) ?ys = filter (\<lambda>x. ?h x = ?h k) (sort_key g xs)"
      by (rule sort_key_stable)
    also have "\<dots> = filter (\<lambda>x. f x = f k) (filter (\<lambda>x. g x = g k) (sort_key g xs))"
      by (simp add: conj_commute)
    also have "filter (\<lambda>x. g x = g k) (sort_key g xs) = filter (\<lambda>x. g x = g k) xs"
      by (rule sort_key_stable)
    also have "filter (\<lambda>x. f x = f k) (filter (\<lambda>x. g x = g k) xs) = filter (\<lambda>x. ?h x = ?h k) xs"
      by (simp add: conj_commute)
    finally show ?thesis unfolding e .
  qed
  have so: "sorted (map ?h ?ys)" by simp
  from m st so have "sort_key ?h xs = ?ys" by (rule properties_for_sort_key)
  then show ?thesis by simp
qed

lemma two_pass_sort:
  "sort_key f (sort_key g xs) = sort_key (\<lambda>x. (f x, g x)) xs"
proof -
  have "sorted (map g (sort_key g xs))" by simp
  then have "sort_key (\<lambda>x. (f x, g x)) (sort_key g xs) = sort_key f (sort_key g xs)"
    by (rule sort_key_pair_of_sorted)
  then show ?thesis by (simp only: sort_key_pair_absorb)
qed

lemma sort_key_reverse:
  fixes f :: "'a \<Rightarrow> int"
  shows "rev (sort_key f (rev xs)) = sort_key (\<lambda>x. - f x) xs"
proof -
  let ?n = "\<lambda>x. - f x"
  let ?ys = "rev (sort_key f (rev xs))"
  have m: "mset ?ys = mset xs" by simp
  have st: "filter (\<lambda>x. ?n k = ?n x) ?ys = filter (\<lambda>x. ?n k = ?n x) xs" for k
  proof -
    have e: "(\<lambda>x. ?n k = ?n x) = (\<lambda>x. f x = f k)" by (rule ext) auto
    have "filter (\<lambda>x. f x = f k) ?ys = rev (filter (\<lambda>x. f x = f k) (sort_key f (rev xs)))"
      by (simp only: rev_filter)
    also have "filter (\<lambda>x. f x = f k) (sort_key f (rev xs)) = filter (\<lambda>x. f x = f k) (rev xs)"
      by (rule sort_key_stable)
    also have "rev (filter (\<lambda>x. f x = f k) (rev xs)) = filter (\<lambda>x. f x = f k) xs"
      by (simp only: rev_filter rev_rev_ident)
    finally show ?thesis unfolding e .
  qed
  have "sorted (map f (sort_key f (rev xs)))" by simp
  then have "sorted_wrt (\<lambda>a b. f a \<le> f b) (sort_key f (rev xs))"
    by (simp only: sorted_map)
  then have "sorted_wrt (\<lambda>a b. f b \<le> f a) ?ys"
    by (simp only: sorted_wrt_rev)
  then have "sorted_wrt (\<lambda>a b. ?n a \<le> ?n b) ?ys" by simp
  then have so: "sorted (map ?n ?ys)" by (simp only: sorted_map)
  from m st so have "sort_key ?n xs = ?ys" by (rule properties_for_sort_key)
  then show ?thesis by simp
qed

section \<open>Rates and the ranking\<close>

lemma counter_get_foldl:
  "counter_get (foldl counter_bump c xs) k = counter_get c k + int (count_list xs k)"
  by (induction xs arbitrary: c) (auto simp: counter_bump_def counter_get_def)

lemma counter_get_Counter: "counter_get (Counter xs) k = int (count_list xs k)"
  by (simp add: Counter_def counter_get_foldl) (simp add: counter_get_def)

lemma sum_list_filter_zero:
  fixes h :: "'a \<Rightarrow> int"
  assumes "\<And>x. \<not> P x \<Longrightarrow> h x = 0"
  shows "sum_list (map h (filter P xs)) = sum_list (map h xs)"
  using assms by (induction xs) auto

text \<open>
  The guard \<open>if tag in list_of_hashtags\<close> of \<open>compute_rate\<close> drops only lookups that
  would give 0, so the sum is the sum of all lookups.
\<close>

lemma rate_numbers_sum: "sum_list (rate_numbers s item) = rate_spec s item"
proof -
  let ?hs = "concat (map hashtags (items (store_shopping_cart s)))"
  let ?n = "\<lambda>tag. int (count_list ?hs tag)"
  have e: "counter_get (Counter ?hs) = ?n"
    by (rule ext) (rule counter_get_Counter)
  have "sum_list (rate_numbers s item)
        = sum_list (map ?n (filter (\<lambda>tag. tag \<in> set ?hs) (hashtags item)))"
    by (simp only: rate_numbers_def list_of_hashtags_def Let_def e)
  also have "\<dots> = sum_list (map ?n (hashtags item))"
    by (rule sum_list_filter_zero) (simp add: count_list_0_iff)
  also have "\<dots> = rate_spec s item"
    by (simp only: rate_spec_def)
  finally show ?thesis .
qed

lemma compute_rate_spec:
  "compute_rate s xs = map (\<lambda>item. (rate_spec s item, item)) xs"
  by (simp add: compute_rate_def rate_numbers_sum)

lemma sort_by_rate_composite:
  "sort_by_rate s xs = sort_key (\<lambda>item. (- rate_spec s item, name item)) xs"
proof -
  let ?h = "\<lambda>item. (rate_spec s item, item)"
  let ?zs = "sort_key name xs"
  have "sort_by_rate s xs = map snd (rev (sort_key fst (rev (map ?h ?zs))))"
    by (simp add: sort_by_rate_def sorted_py_def compute_rate_spec)
  also have "rev (sort_key fst (rev (map ?h ?zs))) = sort_key (\<lambda>p. - fst p) (map ?h ?zs)"
    by (rule sort_key_reverse)
  also have "\<dots> = map ?h (sort_key (\<lambda>item. - fst (?h item)) ?zs)"
    by (rule sort_key_map)
  also have "map snd \<dots> = sort_key (\<lambda>item. - rate_spec s item) ?zs"
    by (simp add: comp_def)
  also have "\<dots> = sort_key (\<lambda>item. (- rate_spec s item, name item)) xs"
    by (rule two_pass_sort)
  finally show ?thesis .
qed

lemma sort_by_rate_sorted:
  "sorted_wrt (\<lambda>a b. rate_spec s b < rate_spec s a
                 \<or> (rate_spec s a = rate_spec s b \<and> name a \<le> name b))
     (sort_by_rate s xs)"
proof -
  let ?k = "\<lambda>item. (- rate_spec s item, name item)"
  have "sorted (map ?k (sort_key ?k xs))" by (rule sorted_sort_key)
  then have "sorted_wrt (\<lambda>a b. ?k a \<le> ?k b) (sort_key ?k xs)"
    by (simp only: sorted_map)
  then have "sorted_wrt (\<lambda>a b. rate_spec s b < rate_spec s a
                 \<or> (rate_spec s a = rate_spec s b \<and> name a \<le> name b)) (sort_key ?k xs)"
    by (rule sorted_wrt_mono_rel [rotated]) (auto simp: less_eq_prod_def)
  then show ?thesis by (simp only: sort_by_rate_composite)
qed

lemma search_by_name_loop_filter:
  "search_by_name_loop s f xs acc
     = acc @ filter (\<lambda>item. sublist f (name item) \<and> item \<notin> set (items (store_shopping_cart s))) xs"
  by (induction xs arbitrary: acc) (simp_all add: ShoppingCart_contains_def)

lemma search_by_hashtag_loop_filter:
  "search_by_hashtag_loop s t xs acc
     = acc @ filter (\<lambda>item. t \<in> set (hashtags item) \<and> item \<notin> set (items (store_shopping_cart s))) xs"
  by (induction xs arbitrary: acc) (simp_all add: ShoppingCart_contains_def)

text \<open>
  C1. The ranking \<open>sort_by_rate\<close> returns a rearrangement of the candidates in which every
  item stands before every item of lower rate and, among items of equal rate, before
  every item of greater name (strings compared character by character, by character
  code). The rate \<open>compute_rate\<close> pairs with a candidate is \<open>rate_spec\<close>: one lookup per
  entry of the candidate's hashtag list, repeated entries included, each giving the
  number of occurrences of the hashtag in the hashtag lists of the cart's items (0 when
  it does not occur). Both searches return what the ranking returns on their candidates.
\<close>

theorem ranking_by_rate_then_name:
  "mset (sort_by_rate s xs) = mset xs
   \<and> sorted_wrt (\<lambda>a b. rate_spec s b < rate_spec s a
                   \<or> (rate_spec s a = rate_spec s b \<and> name a \<le> name b))
       (sort_by_rate s xs)
   \<and> compute_rate s xs = map (\<lambda>item. (rate_spec s item, item)) xs
   \<and> fst (search_by_name s q)
       = sort_by_rate s (search_by_name_loop s q (store_items s) [])
   \<and> fst (search_by_hashtag s q)
       = sort_by_rate s (search_by_hashtag_loop s q (store_items s) [])"
  by (simp add: sort_by_rate_sorted compute_rate_spec search_by_name_def search_by_hashtag_def)
    (simp add: sort_by_rate_composite)

theorem ranking_by_rate_then_name_witness:
  "sort_by_rate example_store [item_C, item_B, item_A] = [item_A, item_B, item_C]
   \<and> compute_rate example_store [item_C, item_B, item_A]
       = [(0, item_C), (2, item_B), (3, item_A)]
   \<and> sort_by_rate (Store_init []) [item_B, item_A] = [item_A, item_B]"
  using ranking_by_rate_then_name [of example_store "[item_C, item_B, item_A]"]
  by (simp add: sort_by_rate_def sorted_py_def compute_rate_def rate_numbers_def
      list_of_hashtags_def Counter_def counter_bump_def counter_get_def
      Store_init_def ShoppingCart_init_def example_defs)

text \<open>
  C7. The two passes of \<open>sort_by_rate\<close>, a stable sort by name ascending and then a stable
  sort by rate descending, give the same list as the single stable sort by the composite
  key (rate descending, name ascending).
\<close>

theorem two_pass_sort_is_composite_sort:
  "sort_by_rate s xs = sort_by_rate_ref s xs"
  by (simp add: sort_by_rate_ref_def sorted_py_def sort_by_rate_composite)

text \<open>
  C4. \<open>search_by_name\<close> returns, ranked, exactly the catalog items whose name contains the
  fragment and that are not in the cart, each as often as the catalog lists it;
  \<open>search_by_hashtag\<close> does the same for the catalog items that have the tag as an
  element of their hashtag list. Neither has an error outcome: the source has no
  \<open>raise\<close> on these paths, and the result may be the empty list. With the empty fragment
  the search by name returns every catalog item that is not in the cart.
\<close>

theorem search_results:
  "fst (search_by_name s q)
     = sort_by_rate s
         (filter (\<lambda>item. sublist q (name item) \<and> item \<notin> set (items (store_shopping_cart s)))
            (store_items s))
   \<and> mset (fst (search_by_name s q))
     = mset (filter (\<lambda>item. sublist q (name item) \<and> item \<notin> set (items (store_shopping_cart s)))
         (store_items s))
   \<and> fst (search_by_hashtag s q)
     = sort_by_rate s
         (filter (\<lambda>item. q \<in> set (hashtags item) \<and> item \<notin> set (items (store_shopping_cart s)))
            (store_items s))
   \<and> mset (fst (search_by_hashtag s q))
     = mset (filter (\<lambda>item. q \<in> set (hashtags item) \<and> item \<notin> set (items (store_shopping_cart s)))
         (store_items s))
   \<and> mset (fst (search_by_name s ''''))
     = mset (filter (\<lambda>item. item \<notin> set (items (store_shopping_cart s))) (store_items s))"
  by (simp add: search_by_name_def search_by_hashtag_def search_by_name_loop_filter
      search_by_hashtag_loop_filter sort_by_rate_composite)

theorem search_results_witness:
  "fst (search_by_name example_store ''e'') = [item_A, item_B, item_C]
   \<and> fst (search_by_hashtag example_store ''x'') = [item_A, item_B]
   \<and> fst (search_by_hashtag example_store ''w'') = []
   \<and> fst (search_by_name example_store '''') = [item_A, item_B, item_C]"
  using search_results [of example_store "''e''"]
  by (simp add: search_by_name_def search_by_hashtag_def ShoppingCart_contains_def
      sort_by_rate_def sorted_py_def compute_rate_def rate_numbers_def
      list_of_hashtags_def Counter_def counter_bump_def counter_get_def
      example_defs sublist_code)

section \<open>The shopping cart\<close>

text \<open>
  C8. If item \<open>i\<close> is already in the cart (by value), \<open>ShoppingCart.add_item\<close> raises
  \<open>ItemAlreadyExistsError\<close> and leaves the cart, and so its size, as it was. If \<open>i\<close> is
  not in the cart, the call appends \<open>i\<close> at the end and keeps every other member in its
  place; adding \<open>i\<close> a second time then fails and changes nothing.
\<close>

theorem cart_add_item_duplicate_or_append:
  "(i \<in> set (items cart) \<longrightarrow>
      ShoppingCart_add_item cart i = (Inl ItemAlreadyExistsError, cart)
      \<and> ShoppingCart_len (snd (ShoppingCart_add_item cart i)) = ShoppingCart_len cart)
   \<and> (i \<notin> set (items cart) \<longrightarrow>
      ShoppingCart_add_item cart i = (Inr (), cart\<lparr>items := items cart @ [i]\<rparr>)
      \<and> ShoppingCart_add_item (snd (ShoppingCart_add_item cart i)) i
          = (Inl ItemAlreadyExistsError, snd (ShoppingCart_add_item cart i)))"
  by (simp add: ShoppingCart_add_item_def)

theorem cart_add_item_duplicate_or_append_witness:
  "ShoppingCart_add_item \<lparr>items = [item_D]\<rparr> item_D
     = (Inl ItemAlreadyExistsError, \<lparr>items = [item_D]\<rparr>)
   \<and> ShoppingCart_add_item \<lparr>items = [item_D]\<rparr> item_A
     = (Inr (), \<lparr>items = [item_D, item_A]\<rparr>)"
  using cart_add_item_duplicate_or_append [of item_D "\<lparr>items = [item_D]\<rparr>"]
    cart_add_item_duplicate_or_append [of item_A "\<lparr>items = [item_D]\<rparr>"]
  by (simp add: item_A_def item_D_def)

text \<open>
  C9. \<open>checkout\<close> returns the sum of the prices of the items in the cart, which is what
  \<open>ShoppingCart.get_subtotal\<close> returns; on an empty cart that is 0. Adding one item \<open>i\<close>
  to a new, empty cart succeeds, and the subtotal is then the price of \<open>i\<close>.
\<close>

theorem checkout_is_sum_of_prices:
  "fst (checkout s) = sum_list (map price (items (store_shopping_cart s)))
   \<and> fst (checkout s) = ShoppingCart_get_subtotal (store_shopping_cart s)
   \<and> (items (store_shopping_cart s) = [] \<longrightarrow> fst (checkout s) = 0)
   \<and> fst (ShoppingCart_add_item ShoppingCart_init i) = Inr ()
   \<and> ShoppingCart_get_subtotal (snd (ShoppingCart_add_item ShoppingCart_init i)) = price i"
  by (simp add: checkout_def ShoppingCart_get_subtotal_def ShoppingCart_add_item_def
      ShoppingCart_init_def)

theorem checkout_is_sum_of_prices_witness:
  "fst (checkout (Store_init [item_A])) = 0
   \<and> fst (checkout example_store) = 2
   \<and> ShoppingCart_get_subtotal (snd (ShoppingCart_add_item ShoppingCart_init item_C)) = 7"
  using checkout_is_sum_of_prices [of "Store_init [item_A]" item_C]
    checkout_is_sum_of_prices [of example_store item_C]
  by (simp add: Store_init_def ShoppingCart_init_def example_store_def item_C_def item_D_def)

subsection \<open>Removing by fragment\<close>

lemma remove_item_scan_None:
  "(remove_item_scan xs f = None) = (filter (\<lambda>item. sublist f (name item)) xs = [])"
  by (induction xs) auto

lemma remove_item_scan_first:
  assumes "\<forall>y\<in>set pre. \<not> sublist f (name y)" and "sublist f (name x)"
  shows "remove_item_scan (pre @ x # post) f = Some x"
  using assms by (induction pre) auto

text \<open>
  \<open>list.remove\<close> deletes the first element equal to the item the loop found. No earlier
  element is equal to it: an equal element has the same name, and the loop would have
  stopped there.
\<close>

lemma remove1_first_match:
  assumes "\<forall>y\<in>set pre. \<not> sublist f (name y)" and "sublist f (name x)"
  shows "remove1 x (pre @ x # post) = pre @ post"
proof -
  from assms have "x \<notin> set pre" by auto
  then show ?thesis by (simp add: remove1_append)
qed

lemma cart_remove_item_first:
  assumes "items cart = pre @ x # post"
    and "\<forall>y\<in>set pre. \<not> sublist f (name y)" and "sublist f (name x)"
  shows "ShoppingCart_remove_item cart f = (Inr (), cart\<lparr>items := pre @ post\<rparr>)"
  using assms remove_item_scan_first [of pre f x post] remove1_first_match [of pre f x post]
  by (simp add: ShoppingCart_remove_item_def)

lemma cart_remove_item_none:
  assumes "filter (\<lambda>item. sublist f (name item)) (items cart) = []"
  shows "ShoppingCart_remove_item cart f = (Inl ItemNotExistError, cart)"
  using assms remove_item_scan_None [of "items cart" f]
  by (simp add: ShoppingCart_remove_item_def)

section \<open>Adding to and removing from the cart through the store\<close>

lemma add_item_state:
  "(\<exists>e. add_item s f = (Inl e, s))
   \<or> (\<exists>m. m \<in> set (store_items s) \<and> m \<notin> set (items (store_shopping_cart s))
          \<and> add_item s f
              = (Inr (), s\<lparr>store_shopping_cart :=
                   (store_shopping_cart s)\<lparr>items := items (store_shopping_cart s) @ [m]\<rparr>\<rparr>))"
proof -
  let ?ms = "filter (\<lambda>item. sublist f (name item)) (store_items s)"
  consider (zero) "?ms = []" | (one) m where "?ms = [m]" | (many) "length ?ms > 1"
    by (cases ?ms rule: list.exhaust; cases "tl ?ms"; fastforce)
  then show ?thesis
  proof cases
    case zero
    then show ?thesis by (simp add: add_item_def)
  next
    case (one m)
    then have "m \<in> set ?ms" by simp
    then have "m \<in> set (store_items s)" by simp
    with one show ?thesis
      by (auto simp: add_item_def ShoppingCart_add_item_def)
  next
    case many
    then have "?ms \<noteq> []" by auto
    with many show ?thesis by (simp add: add_item_def Let_def)
  qed
qed

lemma remove_item_delegates:
  assumes "length (filter (\<lambda>item. sublist f (name item)) (items (store_shopping_cart s))) \<le> 1"
  shows "remove_item s f
           = (fst (ShoppingCart_remove_item (store_shopping_cart s) f),
              s\<lparr>store_shopping_cart := snd (ShoppingCart_remove_item (store_shopping_cart s) f)\<rparr>)"
  using assms by (simp add: remove_item_def split: prod.split)

lemma remove_item_too_many:
  assumes "length (filter (\<lambda>item. sublist f (name item)) (items (store_shopping_cart s))) > 1"
  shows "remove_item s f = (Inl TooManyMatchesError, s)"
  using assms by (simp add: remove_item_def)

lemma remove_item_none:
  assumes "filter (\<lambda>item. sublist f (name item)) (items (store_shopping_cart s)) = []"
  shows "remove_item s f = (Inl ItemNotExistError, s)"
  using assms cart_remove_item_none [of f "store_shopping_cart s"]
  by (simp add: remove_item_delegates)

lemma remove_item_single:
  assumes "items (store_shopping_cart s) = pre @ x # post"
    and "\<forall>y\<in>set pre. \<not> sublist f (name y)" and "sublist f (name x)"
    and "\<forall>y\<in>set post. \<not> sublist f (name y)"
  shows "remove_item s f
           = (Inr (), s\<lparr>store_shopping_cart := (store_shopping_cart s)\<lparr>items := pre @ post\<rparr>\<rparr>)"
proof -
  from assms have "filter (\<lambda>item. sublist f (name item)) (items (store_shopping_cart s)) = [x]"
    by (simp add: filter_empty_conv)
  then have "length (filter (\<lambda>item. sublist f (name item)) (items (store_shopping_cart s))) \<le> 1"
    by simp
  then show ?thesis
    using cart_remove_item_first [OF assms(1) assms(2) assms(3)]
    by (simp add: remove_item_delegates)
qed

lemma remove_item_catalog_independent:
  "remove_item (s\<lparr>store_items := c\<rparr>) f
     = (fst (remove_item s f), (snd (remove_item s f))\<lparr>store_items := c\<rparr>)"
  by (simp add: remove_item_def split: prod.split)

lemma remove_item_state:
  "(\<exists>e. remove_item s f = (Inl e, s))
   \<or> (\<exists>x. remove_item s f
          = (Inr (), s\<lparr>store_shopping_cart :=
               (store_shopping_cart s)\<lparr>items := remove1 x (items (store_shopping_cart s))\<rparr>\<rparr>))"
  by (auto simp: remove_item_def ShoppingCart_remove_item_def split: option.split)

text \<open>
  C2. \<open>Store.add_item\<close> raises \<open>ItemNotExistError\<close> exactly when no catalog item has the
  fragment in its name, and \<open>TooManyMatchesError\<close> exactly when more than one has. With
  exactly one match \<open>m\<close> the outcome is that of \<open>ShoppingCart.add_item\<close> on \<open>m\<close>:
  \<open>ItemAlreadyExistsError\<close> with the store unchanged when \<open>m\<close> is in the cart, and \<open>m\<close>
  appended to the cart otherwise.
\<close>

theorem store_add_item_outcomes:
  "(fst (add_item s f) = Inl ItemNotExistError
      \<longleftrightarrow> length (filter (\<lambda>item. sublist f (name item)) (store_items s)) = 0)
   \<and> (fst (add_item s f) = Inl TooManyMatchesError
      \<longleftrightarrow> length (filter (\<lambda>item. sublist f (name item)) (store_items s)) > 1)
   \<and> (\<forall>m. filter (\<lambda>item. sublist f (name item)) (store_items s) = [m] \<longrightarrow>
        add_item s f
          = (fst (ShoppingCart_add_item (store_shopping_cart s) m),
             s\<lparr>store_shopping_cart := snd (ShoppingCart_add_item (store_shopping_cart s) m)\<rparr>)
        \<and> (m \<in> set (items (store_shopping_cart s)) \<longrightarrow>
             add_item s f = (Inl ItemAlreadyExistsError, s))
        \<and> (m \<notin> set (items (store_shopping_cart s)) \<longrightarrow>
             add_item s f
               = (Inr (), s\<lparr>store_shopping_cart :=
                    (store_shopping_cart s)\<lparr>items := items (store_shopping_cart s) @ [m]\<rparr>\<rparr>)))"
proof -
  let ?ms = "filter (\<lambda>item. sublist f (name item)) (store_items s)"
  consider (zero) "?ms = []" | (one) m where "?ms = [m]" | (many) "length ?ms > 1"
    by (cases ?ms rule: list.exhaust; cases "tl ?ms"; fastforce)
  then show ?thesis
  proof cases
    case zero
    then show ?thesis by (simp add: add_item_def)
  next
    case (one m)
    then show ?thesis
      by (simp add: add_item_def ShoppingCart_add_item_def)
  next
    case many
    then have "?ms \<noteq> []" and "\<And>m. ?ms \<noteq> [m]" by auto
    with many show ?thesis by (simp add: add_item_def)
  qed
qed

theorem store_add_item_outcomes_witness:
  "add_item example_store ''zz'' = (Inl ItemNotExistError, example_store)
   \<and> add_item example_store ''e'' = (Inl TooManyMatchesError, example_store)
   \<and> add_item example_store ''Dates'' = (Inl ItemAlreadyExistsError, example_store)
   \<and> add_item example_store ''Bread''
       = (Inr (), example_store\<lparr>store_shopping_cart := \<lparr>items = [item_D, item_B]\<rparr>\<rparr>)"
  using store_add_item_outcomes [of example_store "''zz''"]
    store_add_item_outcomes [of example_store "''e''"]
    store_add_item_outcomes [of example_store "''Dates''"]
    store_add_item_outcomes [of example_store "''Bread''"]
  by (simp add: example_defs add_item_def ShoppingCart_add_item_def sublist_code)

text \<open>
  C3. \<open>Store.remove_item\<close> looks at the cart only. When more than one cart item has the
  fragment in its name it raises \<open>TooManyMatchesError\<close>. Otherwise, the case of no match
  included, its outcome is that of \<open>ShoppingCart.remove_item\<close> with the same fragment,
  which raises \<open>ItemNotExistError\<close> when no cart item matches and otherwise removes the
  first matching item in cart order. The catalog plays no part, and a call that raises
  leaves the store as it was.
\<close>

theorem store_remove_item_outcomes:
  "(length (filter (\<lambda>item. sublist f (name item)) (items (store_shopping_cart s))) > 1 \<longrightarrow>
      remove_item s f = (Inl TooManyMatchesError, s))
   \<and> (length (filter (\<lambda>item. sublist f (name item)) (items (store_shopping_cart s))) \<le> 1 \<longrightarrow>
      remove_item s f
        = (fst (ShoppingCart_remove_item (store_shopping_cart s) f),
           s\<lparr>store_shopping_cart := snd (ShoppingCart_remove_item (store_shopping_cart s) f)\<rparr>))
   \<and> (filter (\<lambda>item. sublist f (name item)) (items (store_shopping_cart s)) = [] \<longrightarrow>
      ShoppingCart_remove_item (store_shopping_cart s) f
        = (Inl ItemNotExistError, store_shopping_cart s)
      \<and> remove_item s f = (Inl ItemNotExistError, s))
   \<and> (\<forall>pre x post.
        items (store_shopping_cart s) = pre @ x # post
        \<and> (\<forall>y\<in>set pre. \<not> sublist f (name y)) \<and> sublist f (name x) \<longrightarrow>
        ShoppingCart_remove_item (store_shopping_cart s) f
          = (Inr (), (store_shopping_cart s)\<lparr>items := pre @ post\<rparr>))
   \<and> (\<forall>pre x post.
        items (store_shopping_cart s) = pre @ x # post
        \<and> (\<forall>y\<in>set pre. \<not> sublist f (name y)) \<and> sublist f (name x)
        \<and> (\<forall>y\<in>set post. \<not> sublist f (name y)) \<longrightarrow>
        remove_item s f
          = (Inr (), s\<lparr>store_shopping_cart := (store_shopping_cart s)\<lparr>items := pre @ post\<rparr>\<rparr>))
   \<and> remove_item (s\<lparr>store_items := c\<rparr>) f
        = (fst (remove_item s f), (snd (remove_item s f))\<lparr>store_items := c\<rparr>)
   \<and> (\<forall>e. fst (remove_item s f) = Inl e \<longrightarrow> snd (remove_item s f) = s)"
proof (intro conjI allI impI)
  assume "length (filter (\<lambda>item. sublist f (name item)) (items (store_shopping_cart s))) > 1"
  then show "remove_item s f = (Inl TooManyMatchesError, s)"
    by (rule remove_item_too_many)
next
  assume "length (filter (\<lambda>item. sublist f (name item)) (items (store_shopping_cart s))) \<le> 1"
  then show "remove_item s f
        = (fst (ShoppingCart_remove_item (store_shopping_cart s) f),
           s\<lparr>store_shopping_cart := snd (ShoppingCart_remove_item (store_shopping_cart s) f)\<rparr>)"
    by (rule remove_item_delegates)
next
  assume "filter (\<lambda>item. sublist f (name item)) (items (store_shopping_cart s)) = []"
  then show "ShoppingCart_remove_item (store_shopping_cart s) f
        = (Inl ItemNotExistError, store_shopping_cart s)"
    by (rule cart_remove_item_none)
next
  assume "filter (\<lambda>item. sublist f (name item)) (items (store_shopping_cart s)) = []"
  then show "remove_item s f = (Inl ItemNotExistError, s)"
    by (rule remove_item_none)
next
  fix pre x post
  assume "items (store_shopping_cart s) = pre @ x # post
        \<and> (\<forall>y\<in>set pre. \<not> sublist f (name y)) \<and> sublist f (name x)"
  then show "ShoppingCart_remove_item (store_shopping_cart s) f
          = (Inr (), (store_shopping_cart s)\<lparr>items := pre @ post\<rparr>)"
    by (simp add: cart_remove_item_first)
next
  fix pre x post
  assume "items (store_shopping_cart s) = pre @ x # post
        \<and> (\<forall>y\<in>set pre. \<not> sublist f (name y)) \<and> sublist f (name x)
        \<and> (\<forall>y\<in>set post. \<not> sublist f (name y))"
  then show "remove_item s f
          = (Inr (), s\<lparr>store_shopping_cart := (store_shopping_cart s)\<lparr>items := pre @ post\<rparr>\<rparr>)"
    by (simp add: remove_item_single)
next
  show "remove_item (s\<lparr>store_items := c\<rparr>) f
        = (fst (remove_item s f), (snd (remove_item s f))\<lparr>store_items := c\<rparr>)"
    by (rule remove_item_catalog_independent)
next
  fix e
  assume "fst (remove_item s f) = Inl e"
  then show "snd (remove_item s f) = s"
    using remove_item_state [of s f] by auto
qed

theorem store_remove_item_outcomes_witness:
  "remove_item example_full_cart ''e'' = (Inl TooManyMatchesError, example_full_cart)
   \<and> remove_item example_full_cart ''Cheese'' = (Inl ItemNotExistError, example_full_cart)
   \<and> remove_item example_full_cart ''pp''
       = (Inr (), example_full_cart\<lparr>store_shopping_cart := \<lparr>items = [item_D, item_B]\<rparr>\<rparr>)
   \<and> ShoppingCart_remove_item (store_shopping_cart example_full_cart) ''e''
       = (Inr (), \<lparr>items = [item_A, item_B]\<rparr>)"
  using store_remove_item_outcomes [of "''e''" example_full_cart]
    store_remove_item_outcomes [of "''Cheese''" example_full_cart]
    store_remove_item_outcomes [of "''pp''" example_full_cart]
  by (simp add: example_defs remove_item_def ShoppingCart_remove_item_def sublist_code)

section \<open>Invariants\<close>

lemma cart_invariant_init: "cart_invariant (Store_init loaded)"
  by (simp add: cart_invariant_def Store_init_def ShoppingCart_init_def)

lemma cart_invariant_add_item:
  assumes "cart_invariant s"
  shows "cart_invariant (snd (add_item s f))"
  using assms add_item_state [of s f]
  by (auto simp: cart_invariant_def)

lemma cart_invariant_remove_item:
  assumes "cart_invariant s"
  shows "cart_invariant (snd (remove_item s f))"
proof -
  from remove_item_state [of s f]
  consider (err) e where "remove_item s f = (Inl e, s)"
    | (ok) x where "remove_item s f
          = (Inr (), s\<lparr>store_shopping_cart :=
               (store_shopping_cart s)\<lparr>items := remove1 x (items (store_shopping_cart s))\<rparr>\<rparr>)"
    by blast
  then show ?thesis
  proof cases
    case err
    with assms show ?thesis by simp
  next
    case ok
    have "set (remove1 x (items (store_shopping_cart s))) \<subseteq> set (items (store_shopping_cart s))"
      by (rule set_remove1_subset)
    with assms ok show ?thesis
      by (auto simp: cart_invariant_def)
  qed
qed

lemma add_item_catalog: "store_items (snd (add_item s f)) = store_items s"
  using add_item_state [of s f] by auto

lemma remove_item_catalog: "store_items (snd (remove_item s f)) = store_items s"
  using remove_item_state [of s f] by auto

lemma add_item_failure_unchanged:
  "fst (add_item s f) = Inl e \<Longrightarrow> snd (add_item s f) = s"
  using add_item_state [of s f] by auto

lemma remove_item_failure_unchanged:
  "fst (remove_item s f) = Inl e \<Longrightarrow> snd (remove_item s f) = s"
  using remove_item_state [of s f] by auto

lemma cart_add_item_distinct:
  "distinct (items cart) \<Longrightarrow> distinct (items (snd (ShoppingCart_add_item cart i)))"
  by (simp add: ShoppingCart_add_item_def)

lemma cart_remove_item_distinct:
  "distinct (items cart) \<Longrightarrow> distinct (items (snd (ShoppingCart_remove_item cart f)))"
  by (simp add: ShoppingCart_remove_item_def split: option.split)

lemma cart_failure_unchanged:
  "fst (ShoppingCart_add_item cart i) = Inl e \<Longrightarrow> snd (ShoppingCart_add_item cart i) = cart"
  "fst (ShoppingCart_remove_item cart f) = Inl e \<Longrightarrow> snd (ShoppingCart_remove_item cart f) = cart"
  by (simp_all add: ShoppingCart_add_item_def ShoppingCart_remove_item_def
      split: if_splits option.splits)

lemma query_state:
  "snd (search_by_name s q) = s" "snd (search_by_hashtag s q) = s"
  "snd (get_items s) = s" "snd (checkout s) = s"
  by (simp_all add: search_by_name_def search_by_hashtag_def get_items_def checkout_def)

lemma reachable_invariant:
  "reachable loaded s \<Longrightarrow> cart_invariant s \<and> store_items s = loaded"
proof (induction rule: reachable.induct)
  case (reachable_init loaded)
  show ?case by (simp add: cart_invariant_init) (simp add: Store_init_def)
next
  case (reachable_add_item loaded s f)
  then show ?case by (simp add: cart_invariant_add_item add_item_catalog)
next
  case (reachable_remove_item loaded s f)
  then show ?case by (simp add: cart_invariant_remove_item remove_item_catalog)
qed (simp_all add: query_state)

text \<open>
  C5. A newly constructed store satisfies the invariant (no item twice in the cart,
  every cart item an item of the catalog), each of the six public operations preserves
  it and leaves the catalog list as it was, so every state a store can reach satisfies
  it with the catalog it was constructed with; and a call of \<open>add_item\<close> or
  \<open>remove_item\<close> that raises, whatever the error, leaves the whole store unchanged.
  The two mutating methods of the cart itself keep the cart free of duplicates and leave
  it unchanged when they raise.
\<close>

theorem store_invariants_and_exception_safety:
  "cart_invariant (Store_init loaded)
   \<and> (cart_invariant s \<longrightarrow>
        cart_invariant (snd (add_item s f))
        \<and> cart_invariant (snd (remove_item s f))
        \<and> cart_invariant (snd (search_by_name s f))
        \<and> cart_invariant (snd (search_by_hashtag s f))
        \<and> cart_invariant (snd (get_items s))
        \<and> cart_invariant (snd (checkout s)))
   \<and> store_items (snd (add_item s f)) = store_items s
   \<and> store_items (snd (remove_item s f)) = store_items s
   \<and> store_items (snd (search_by_name s f)) = store_items s
   \<and> store_items (snd (search_by_hashtag s f)) = store_items s
   \<and> store_items (snd (get_items s)) = store_items s
   \<and> store_items (snd (checkout s)) = store_items s
   \<and> (reachable loaded s \<longrightarrow> cart_invariant s \<and> store_items s = loaded)
   \<and> (\<forall>e. fst (add_item s f) = Inl e \<longrightarrow> snd (add_item s f) = s)
   \<and> (\<forall>e. fst (remove_item s f) = Inl e \<longrightarrow> snd (remove_item s f) = s)
   \<and> (distinct (items cart) \<longrightarrow>
        distinct (items (snd (ShoppingCart_add_item cart i)))
        \<and> distinct (items (snd (ShoppingCart_remove_item cart f))))
   \<and> (\<forall>e. fst (ShoppingCart_add_item cart i) = Inl e \<longrightarrow>
        snd (ShoppingCart_add_item cart i) = cart)
   \<and> (\<forall>e. fst (ShoppingCart_remove_item cart f) = Inl e \<longrightarrow>
        snd (ShoppingCart_remove_item cart f) = cart)"
  by (simp add: cart_invariant_init cart_invariant_add_item cart_invariant_remove_item
      add_item_catalog remove_item_catalog add_item_failure_unchanged
      remove_item_failure_unchanged query_state reachable_invariant
      cart_add_item_distinct cart_remove_item_distinct cart_failure_unchanged)

theorem store_invariants_and_exception_safety_witness:
  "cart_invariant example_store
   \<and> cart_invariant (snd (add_item example_store ''Bread''))
   \<and> cart_invariant (snd (remove_item example_store ''Dates''))
   \<and> snd (add_item example_store ''e'') = example_store
   \<and> snd (remove_item example_store ''Bread'') = example_store"
proof -
  have inv: "cart_invariant example_store"
    by (simp add: cart_invariant_def example_defs)
  have a: "fst (add_item example_store ''e'') = Inl TooManyMatchesError"
    by (simp add: add_item_def example_defs sublist_code)
  have r: "fst (remove_item example_store ''Bread'') = Inl ItemNotExistError"
    by (simp add: remove_item_def ShoppingCart_remove_item_def example_defs sublist_code)
  from inv a store_invariants_and_exception_safety
      [of "[]" example_store "''Bread''" ShoppingCart_init item_A]
    store_invariants_and_exception_safety
      [of "[]" example_store "''Dates''" ShoppingCart_init item_A]
    store_invariants_and_exception_safety
      [of "[]" example_store "''e''" ShoppingCart_init item_A]
  have "cart_invariant (snd (add_item example_store ''Bread''))"
    and "cart_invariant (snd (remove_item example_store ''Dates''))"
    and "snd (add_item example_store ''e'') = example_store"
    by blast+
  moreover from r store_invariants_and_exception_safety
      [of "[]" example_store "''Bread''" ShoppingCart_init item_A]
  have "snd (remove_item example_store ''Bread'') = example_store" by blast
  ultimately show ?thesis using inv by simp
qed

section \<open>Round trip\<close>

lemma round_trip_cart_within_catalog:
  assumes sub: "set (items (store_shopping_cart s)) \<subseteq> set (store_items s)"
    and one: "length (filter (\<lambda>item. sublist f (name item)) (store_items s)) = 1"
    and ok: "fst (add_item s f) = Inr ()"
  shows "remove_item (snd (add_item s f)) f = (Inr (), s)"
proof -
  let ?P = "\<lambda>item. sublist f (name item)"
  let ?cart = "items (store_shopping_cart s)"
  from one obtain m where m: "filter ?P (store_items s) = [m]"
    by (cases "filter ?P (store_items s)") auto
  then have "m \<in> set (filter ?P (store_items s))" by simp
  then have pm: "?P m" by simp
  from ok m have notin: "m \<notin> set ?cart"
    by (auto simp: add_item_def ShoppingCart_add_item_def split: if_splits)
  with m have added: "snd (add_item s f)
      = s\<lparr>store_shopping_cart := (store_shopping_cart s)\<lparr>items := ?cart @ [m]\<rparr>\<rparr>"
    by (simp add: add_item_def ShoppingCart_add_item_def)
  have nomatch: "\<forall>y\<in>set ?cart. \<not> ?P y"
  proof
    fix y assume y: "y \<in> set ?cart"
    show "\<not> ?P y"
    proof
      assume "?P y"
      with y sub have "y \<in> set (filter ?P (store_items s))" by auto
      with m have "y = m" by simp
      with y notin show False by simp
    qed
  qed
  let ?s' = "s\<lparr>store_shopping_cart := (store_shopping_cart s)\<lparr>items := ?cart @ [m]\<rparr>\<rparr>"
  have "remove_item ?s' f
          = (Inr (), ?s'\<lparr>store_shopping_cart := (store_shopping_cart ?s')\<lparr>items := ?cart @ []\<rparr>\<rparr>)"
    by (rule remove_item_single) (use nomatch pm in simp_all)
  then show ?thesis by (simp add: added)
qed

text \<open>
  The round trip rests on the cart holding catalog items only. A store value whose cart
  holds an item that is not in the catalog, which no operation produces, shows why: the
  fragment then matches two cart items after the \<open>add_item\<close>.
\<close>

lemma round_trip_needs_cart_within_catalog:
  "length (filter (\<lambda>item. sublist ''Apple'' (name item)) (store_items example_foreign_cart)) = 1
   \<and> add_item example_foreign_cart ''Apple''
       = (Inr (), example_foreign_cart\<lparr>store_shopping_cart :=
            \<lparr>items = [item_A\<lparr>name := ''Apple pie''\<rparr>, item_A]\<rparr>\<rparr>)
   \<and> fst (remove_item (snd (add_item example_foreign_cart ''Apple'')) ''Apple'')
       = Inl TooManyMatchesError"
  by (simp add: example_foreign_cart_def example_defs add_item_def ShoppingCart_add_item_def
      remove_item_def sublist_code Let_def)

text \<open>
  C6. In every state of a store (constructed from its loaded list and then changed only
  by the public operations), for a fragment that exactly one catalog item matches: if
  \<open>add_item\<close> succeeds, then \<open>remove_item\<close> with the same fragment, called next, succeeds
  too and gives back the store, and so the cart, exactly as it was before the
  \<open>add_item\<close>.
\<close>

theorem add_then_remove_round_trip:
  assumes "reachable loaded s"
    and "length (filter (\<lambda>item. sublist f (name item)) (store_items s)) = 1"
    and "fst (add_item s f) = Inr ()"
  shows "remove_item (snd (add_item s f)) f = (Inr (), s)"
proof -
  from assms(1) have "cart_invariant s" by (simp add: reachable_invariant)
  then have "set (items (store_shopping_cart s)) \<subseteq> set (store_items s)"
    by (simp add: cart_invariant_def)
  then show ?thesis using assms(2) assms(3) by (rule round_trip_cart_within_catalog)
qed

theorem add_then_remove_round_trip_witness:
  "remove_item (snd (add_item example_store ''Bread'')) ''Bread'' = (Inr (), example_store)"
proof (rule add_then_remove_round_trip)
  have "snd (add_item (Store_init [item_C, item_B, item_A, item_D]) ''Dates'') = example_store"
    by (simp add: add_item_def ShoppingCart_add_item_def Store_init_def ShoppingCart_init_def
        example_defs sublist_code Let_def)
  then show "reachable [item_C, item_B, item_A, item_D] example_store"
    using reachable_add_item [OF reachable_init, of "[item_C, item_B, item_A, item_D]" "''Dates''"]
    by simp
  show "length (filter (\<lambda>item. sublist ''Bread'' (name item)) (store_items example_store)) = 1"
    by (simp add: example_defs sublist_code)
  show "fst (add_item example_store ''Bread'') = Inr ()"
    by (simp add: add_item_def ShoppingCart_add_item_def example_defs sublist_code)
qed

section \<open>Queries\<close>

text \<open>
  C10. The four queries \<open>search_by_name\<close>, \<open>search_by_hashtag\<close>, \<open>get_items\<close> and
  \<open>checkout\<close> leave the store as they found it: neither the catalog list nor the cart
  is modified.
\<close>

theorem queries_leave_store_unchanged:
  "snd (search_by_name s item_name) = s
   \<and> snd (search_by_hashtag s hashtag) = s
   \<and> snd (get_items s) = s
   \<and> snd (checkout s) = s"
  by (simp add: search_by_name_def search_by_hashtag_def get_items_def checkout_def)

end
